theory Spec2Isabelle
  imports Main "HOL-Library.Word"
begin

unbundle bit_operations_syntax

section \<open>Bytes and Python's \<open>struct\<close> module\<close>

type_synonym byte = "8 word"

text \<open>
  The exceptions the modelled code can raise. \<open>RuntimeError\<close> is the one the patchers
  raise themselves (assembler failure); the others come from the Python runtime.
\<close>

datatype error =
    RuntimeError
  | StructError
  | ValueError
  | IndexError
  | UnicodeError

text \<open>\<open>struct.pack("<I", v)\<close>: four little-endian bytes, \<open>struct.error\<close> outside \<open>[0, 2^32)\<close>.\<close>

definition le_bytes :: "nat \<Rightarrow> int \<Rightarrow> byte list" where
  "le_bytes n v = map (\<lambda>k. word_of_int (v div 256 ^ k)) [0..<n]"

definition pack_I :: "int \<Rightarrow> error + byte list" where
  "pack_I v = (if 0 \<le> v \<and> v < 2 ^ 32 then Inr (le_bytes 4 v) else Inl StructError)"

text \<open>The little-endian value of a byte string.\<close>

fun le_val :: "byte list \<Rightarrow> int" where
  "le_val [] = 0"
| "le_val (b # bs) = uint b + 256 * le_val bs"



section \<open>Python sequences\<close>

text \<open>
  Slice bounds are normalised as Python does: a negative bound counts from the end, and
  every bound is clipped to \<open>[0, len]\<close>. \<open>xs[a:b]\<close> reads, \<open>xs[a:b] = ys\<close> on a
  \<open>bytearray\<close> replaces the slice by \<open>ys\<close> whatever the two lengths are, so it can
  grow or shrink the buffer.
\<close>

definition py_norm :: "nat \<Rightarrow> int \<Rightarrow> nat" where
  "py_norm n i = (if i < 0 then nat (max 0 (i + int n)) else min (nat i) n)"

definition py_slice :: "'a list \<Rightarrow> int \<Rightarrow> int \<Rightarrow> 'a list" where
  "py_slice xs a b =
     (let lo = py_norm (length xs) a; hi = py_norm (length xs) b
      in take (hi - lo) (drop lo xs))"

definition py_setslice :: "'a list \<Rightarrow> int \<Rightarrow> int \<Rightarrow> 'a list \<Rightarrow> 'a list" where
  "py_setslice xs a b ys =
     (let lo = py_norm (length xs) a; hi = max lo (py_norm (length xs) b)
      in take lo xs @ ys @ drop hi xs)"


text \<open>\<open>range(a, b, s)\<close> for a step \<open>s\<close> of either sign (a zero step is never used).\<close>

definition py_range :: "int \<Rightarrow> int \<Rightarrow> int \<Rightarrow> int list" where
  "py_range a b s =
     (if s > 0 then map (\<lambda>k. a + int k * s) [0..<nat ((b - a + s - 1) div s)]
      else if s < 0 then map (\<lambda>k. a + int k * s) [0..<nat ((a - b - s - 1) div (- s))]
      else [])"

text \<open>\<open>s.startswith(p)\<close>.\<close>

definition startswith :: "'a list \<Rightarrow> 'a list \<Rightarrow> bool" where
  "startswith s p = (take (length p) s = p)"

text \<open>
  \<open>bytes.find(sub, start)\<close>: the lowest index at or after \<open>start\<close> where \<open>sub\<close> occurs,
  or \<open>-1\<close>.
\<close>

fun find_at :: "'a list \<Rightarrow> 'a list \<Rightarrow> int \<Rightarrow> int" where
  "find_at sub [] i = (if sub = [] then i else - 1)"
| "find_at sub (x # xs) i = (if startswith (x # xs) sub then i else find_at sub xs (i + 1))"

definition py_find :: "'a list \<Rightarrow> 'a list \<Rightarrow> int \<Rightarrow> int" where
  "py_find xs sub start =
     (let lo = (if start < 0 then max 0 (start + int (length xs)) else start)
      in if lo > int (length xs) then - 1 else find_at sub (drop (nat lo) xs) lo)"

text \<open>Decimal and upper-case hexadecimal formatting of f-strings (\<open>{n}\<close>, \<open>{n:X}\<close>).\<close>

definition digit_char :: "nat \<Rightarrow> char" where
  "digit_char d = (''0123456789ABCDEF'') ! d"

fun digits :: "nat \<Rightarrow> nat \<Rightarrow> string" where
  "digits b n = (if b < 2 \<or> n < b then [digit_char n] else digits b (n div b) @ [digit_char (n mod b)])"

declare digits.simps [simp del]

definition str_int :: "int \<Rightarrow> string" where
  "str_int n = (if n < 0 then CHR ''-'' # digits 10 (nat (- n)) else digits 10 (nat n))"

definition hex_upper :: "int \<Rightarrow> string" where
  "hex_upper n = (if n < 0 then CHR ''-'' # digits 16 (nat (- n)) else digits 16 (nat n))"

section \<open>Branch encoding helpers (\<open>kernel_jb.py\<close>)\<close>

text \<open>
  \<^verbatim>\<open>
  def _encode_b(self, from_off, to_off):
      delta = (to_off - from_off) // 4
      if delta < -(1 << 25) or delta >= (1 << 25):
          return None
      return struct.pack("<I", 0x14000000 | (delta & 0x3FFFFFF))
  \<close>
  Python's \<open>//\<close> is floor division, as \<open>div\<close> on \<open>int\<close>; \<open>&\<close> and \<open>|\<close> on Python's
  unbounded integers are the two's complement operations \<open>AND\<close> and \<open>OR\<close> on \<open>int\<close>.
\<close>

definition encode_b :: "int \<Rightarrow> int \<Rightarrow> error + byte list option" where
  "encode_b from_off to_off =
     (let delta = (to_off - from_off) div 4 in
      if delta < - (2 ^ 25) \<or> delta \<ge> 2 ^ 25 then Inr None
      else case pack_I (0x14000000 OR (delta AND 0x3FFFFFF)) of
             Inl e \<Rightarrow> Inl e
           | Inr bs \<Rightarrow> Inr (Some bs))"

definition encode_bl :: "int \<Rightarrow> int \<Rightarrow> error + byte list option" where
  "encode_bl from_off to_off =
     (let delta = (to_off - from_off) div 4 in
      if delta < - (2 ^ 25) \<or> delta \<ge> 2 ^ 25 then Inr None
      else case pack_I (0x94000000 OR (delta AND 0x3FFFFFF)) of
             Inl e \<Rightarrow> Inl e
           | Inr bs \<Rightarrow> Inr (Some bs))"

text \<open>
  Reading a branch back: bits 31..26 are the opcode (\<open>000101\<close> for B, \<open>100101\<close> for
  BL), bits 25..0 the word displacement in two's complement. The source decodes a B the
  same way in \<open>patch_syscallmask_apply_to_proc\<close>:
  \<^verbatim>\<open>imm26 = val & 0x3FFFFFF; if imm26 & (1 << 25): imm26 -= (1 << 26)\<close>.
\<close>

definition branch_opcode :: "byte list \<Rightarrow> int" where
  "branch_opcode bs = le_val bs div 2 ^ 26"

definition branch_disp :: "byte list \<Rightarrow> int" where
  "branch_disp bs =
     (let imm26 = le_val bs mod 2 ^ 26 in
      if imm26 \<ge> 2 ^ 25 then imm26 - 2 ^ 26 else imm26)"

subsection \<open>Little-endian packing and the bit operations of the encoders\<close>

lemma and_mask26: "(d::int) AND 0x3FFFFFF = d mod 2 ^ 26"
proof -
  have "(0x3FFFFFF::int) = mask 26" by (simp add: mask_eq_exp_minus_1)
  then have "d AND 0x3FFFFFF = take_bit 26 d" by (simp only: take_bit_eq_mask)
  then show ?thesis by (simp add: take_bit_eq_mod)
qed

lemma or_opcode: "(k::int) * 2 ^ 26 OR (d mod 2 ^ 26) = k * 2 ^ 26 + d mod 2 ^ 26"
proof -
  have "concat_bit 26 d k = take_bit 26 d + push_bit 26 k" by (rule concat_bit_eq)
  then show ?thesis
    by (simp add: concat_bit_def take_bit_eq_mod push_bit_eq_mult ac_simps)
qed

lemma le_bytes_Suc: "le_bytes (Suc n) v = word_of_int v # le_bytes n (v div 256)"
proof -
  have "[0..<Suc n] = 0 # map Suc [0..<n]"
    by (simp add: upt_conv_Cons map_Suc_upt del: upt_Suc)
  then show ?thesis
    by (simp add: le_bytes_def comp_def zdiv_zmult2_eq del: upt_Suc)
qed

lemma le_bytes_0: "le_bytes 0 v = []"
  by (simp add: le_bytes_def)

lemma length_le_bytes: "length (le_bytes n v) = n"
  by (simp add: le_bytes_def)

lemma le_val_le_bytes: "le_val (le_bytes n v) = v mod 256 ^ n"
proof (induction n arbitrary: v)
  case 0
  show ?case by (simp add: le_bytes_0)
next
  case (Suc n)
  have "uint (word_of_int v :: byte) = v mod 256"
    by (simp add: uint_word_of_int)
  then show ?case
    using Suc [of "v div 256"] by (simp add: le_bytes_Suc zmod_zmult2_eq)
qed

lemma branch_word:
  fixes d k :: int
  assumes "0 \<le> k" "k < 64"
  shows "k * 2 ^ 26 OR (d AND 0x3FFFFFF) = k * 2 ^ 26 + d mod 2 ^ 26"
    and "0 \<le> k * 2 ^ 26 + d mod 2 ^ 26"
    and "k * 2 ^ 26 + d mod 2 ^ 26 < 2 ^ 32"
proof -
  show "k * 2 ^ 26 OR (d AND 0x3FFFFFF) = k * 2 ^ 26 + d mod 2 ^ 26"
    by (simp only: and_mask26 or_opcode)
  have m: "0 \<le> d mod 2 ^ 26" "d mod 2 ^ 26 < 2 ^ 26" by simp_all
  show "0 \<le> k * 2 ^ 26 + d mod 2 ^ 26" using assms m by simp
  have "k * 2 ^ 26 \<le> 63 * 2 ^ 26" using assms by simp
  then show "k * 2 ^ 26 + d mod 2 ^ 26 < 2 ^ 32" using m by simp
qed

lemma pack_branch:
  fixes d k :: int
  assumes "0 \<le> k" "k < 64"
  shows "pack_I (k * 2 ^ 26 OR (d AND 0x3FFFFFF)) = Inr (le_bytes 4 (k * 2 ^ 26 + d mod 2 ^ 26))"
  using branch_word [OF assms, of d] by (simp only: pack_I_def) simp

lemma decode_branch:
  fixes d k :: int
  assumes k: "0 \<le> k" "k < 64" and d: "- (2 ^ 25) \<le> d" "d < 2 ^ 25"
  shows "branch_opcode (le_bytes 4 (k * 2 ^ 26 + d mod 2 ^ 26)) = k"
    and "branch_disp (le_bytes 4 (k * 2 ^ 26 + d mod 2 ^ 26)) = d"
proof -
  let ?v = "k * 2 ^ 26 + d mod 2 ^ 26"
  have v: "le_val (le_bytes 4 ?v) = ?v"
    using branch_word(2,3) [OF k, of d] by (simp add: le_val_le_bytes)
  have m: "0 \<le> d mod 2 ^ 26" "d mod 2 ^ 26 < 2 ^ 26" by simp_all
  show "branch_opcode (le_bytes 4 ?v) = k"
    unfolding branch_opcode_def v using m by simp
  have low: "?v mod 2 ^ 26 = d mod 2 ^ 26" by simp
  have "d mod 2 ^ 26 = (if d < 0 then d + 2 ^ 26 else d)"
  proof (cases "d < 0")
    case True
    then have "(d + 2 ^ 26) mod 2 ^ 26 = d + 2 ^ 26" using d by (intro mod_pos_pos_trivial) simp_all
    then show ?thesis using True by simp
  next
    case False
    then show ?thesis using d by (simp add: mod_pos_pos_trivial)
  qed
  then show "branch_disp (le_bytes 4 ?v) = d"
    unfolding branch_disp_def v low using d by (simp add: Let_def)
qed

text \<open>
  Claim C8. For any two file offsets, \<open>_encode_b\<close> and \<open>_encode_bl\<close> return \<open>None\<close>
  exactly when the word displacement \<open>(to_off - from_off) // 4\<close> is below \<open>-2^25\<close> or at
  least \<open>2^25\<close>. Otherwise they return four bytes (packing never raises) whose opcode
  field is that of B (respectively BL) and whose 26-bit displacement field, read back as
  two's complement, is exactly that displacement: nothing is truncated or wrapped.
\<close>

theorem encode_branch_range_validated:
  fixes from_off to_off :: int
  shows "(encode_b from_off to_off = Inr None \<longleftrightarrow>
            (to_off - from_off) div 4 < - (2 ^ 25) \<or> 2 ^ 25 \<le> (to_off - from_off) div 4)
       \<and> (encode_bl from_off to_off = Inr None \<longleftrightarrow>
            (to_off - from_off) div 4 < - (2 ^ 25) \<or> 2 ^ 25 \<le> (to_off - from_off) div 4)
       \<and> (- (2 ^ 25) \<le> (to_off - from_off) div 4 \<and> (to_off - from_off) div 4 < 2 ^ 25 \<longrightarrow>
            (\<exists>bs. encode_b from_off to_off = Inr (Some bs) \<and> length bs = 4
                \<and> branch_opcode bs = 0x05 \<and> branch_disp bs = (to_off - from_off) div 4)
          \<and> (\<exists>bs. encode_bl from_off to_off = Inr (Some bs) \<and> length bs = 4
                \<and> branch_opcode bs = 0x25 \<and> branch_disp bs = (to_off - from_off) div 4))"
proof -
  define d where "d = (to_off - from_off) div 4"
  have b: "pack_I (0x14000000 OR (d AND 0x3FFFFFF)) = Inr (le_bytes 4 (5 * 2 ^ 26 + d mod 2 ^ 26))"
    using pack_branch [of 5 d] by simp
  have bl: "pack_I (0x94000000 OR (d AND 0x3FFFFFF)) = Inr (le_bytes 4 (37 * 2 ^ 26 + d mod 2 ^ 26))"
    using pack_branch [of 37 d] by simp
  have eb: "encode_b from_off to_off =
      (if d < - (2 ^ 25) \<or> 2 ^ 25 \<le> d then Inr None
       else Inr (Some (le_bytes 4 (5 * 2 ^ 26 + d mod 2 ^ 26))))"
    unfolding encode_b_def d_def [symmetric] Let_def b by simp
  have ebl: "encode_bl from_off to_off =
      (if d < - (2 ^ 25) \<or> 2 ^ 25 \<le> d then Inr None
       else Inr (Some (le_bytes 4 (37 * 2 ^ 26 + d mod 2 ^ 26))))"
    unfolding encode_bl_def d_def [symmetric] Let_def bl by simp
  have dec: "- (2 ^ 25) \<le> d \<Longrightarrow> d < 2 ^ 25 \<Longrightarrow>
      branch_opcode (le_bytes 4 (5 * 2 ^ 26 + d mod 2 ^ 26)) = 5
      \<and> branch_disp (le_bytes 4 (5 * 2 ^ 26 + d mod 2 ^ 26)) = d
      \<and> branch_opcode (le_bytes 4 (37 * 2 ^ 26 + d mod 2 ^ 26)) = 37
      \<and> branch_disp (le_bytes 4 (37 * 2 ^ 26 + d mod 2 ^ 26)) = d"
    using decode_branch [of 5 d] decode_branch [of 37 d] by simp
  show ?thesis
    unfolding d_def [symmetric] eb ebl using dec by (auto simp: length_le_bytes)
qed

theorem encode_branch_range_validated_witness:
  "encode_b 0x1000 0x2000 = Inr (Some [0x00, 0x04, 0x00, 0x14])
   \<and> branch_disp [0x00, 0x04, 0x00, 0x14] = 0x400
   \<and> encode_bl 0x2000 0x1000 = Inr (Some [0x00, 0xFC, 0xFF, 0x97])
   \<and> encode_b 0 0x8000000 = Inr None
   \<and> encode_bl 0x8000004 0 = Inr None"
proof -
  have "encode_b 0 0x8000000 = Inr None" "encode_bl 0x8000004 0 = Inr None"
    using encode_branch_range_validated [of 0 "0x8000000"]
      encode_branch_range_validated [of "0x8000004" 0] by simp_all
  moreover have "encode_b 0x1000 0x2000 = Inr (Some [0x00, 0x04, 0x00, 0x14])"
    by (simp add: encode_b_def pack_I_def le_bytes_def and_mask26 or_opcode upt_rec)
  moreover have "encode_bl 0x2000 0x1000 = Inr (Some [0x00, 0xFC, 0xFF, 0x97])"
    by (simp add: encode_bl_def pack_I_def le_bytes_def and_mask26 upt_rec)
  moreover have "branch_disp [0x00, 0x04, 0x00, 0x14] = 0x400"
    by (simp add: branch_disp_def)
  ultimately show ?thesis by simp
qed

section \<open>The patch engine shared by the three patchers\<close>

text \<open>
  A patch is the triple \<open>(offset, bytes, description)\<close> that \<open>apply\<close> iterates over.
  A patcher object holds the snapshot \<open>raw\<close> that the rules scan, the working buffer
  \<open>data\<close> and the list \<open>patches\<close>. Logging is a side channel and is left out.
\<close>

type_synonym patch = "int \<times> byte list \<times> string"

record patcher =
  raw :: "byte list"
  data :: "byte list"
  patches :: "patch list"

text \<open>
  Modelled from the spec: \<open>self.size\<close>, set by the constructors of the base classes
  (\<open>kernel.py\<close>, \<open>txm.py\<close>, \<open>iboot.py\<close> are not part of the sources). The spec's data
  model has \<open>raw\<close> as the immutable snapshot of the image and \<open>size\<close> as its length.
\<close>

definition psize :: "'a patcher_scheme \<Rightarrow> int" where
  "psize p = int (length (raw p))"

text \<open>
  Modelled from the spec: \<open>emit(off, patch_bytes, desc)\<close> of the base classes, which are
  not part of the sources. The patchers' \<open>apply\<close> reads \<open>self.patches\<close> as a list of
  triples, so \<open>emit\<close> appends one. The spec has the working buffer reflect prior writes
  ("the mutable buffer reflects prior writes, so a second scan will not re-offer
  overlapping caves"; the allocator "re-scans the working buffer, not the original"), and
  the docstring of \<open>_find_code_cave\<close> says the same, so \<open>emit\<close> also writes the bytes
  into \<open>data\<close>, with the slice assignment \<open>apply\<close> uses.
\<close>

definition emit :: "int \<Rightarrow> byte list \<Rightarrow> string \<Rightarrow> 'a patcher_scheme \<Rightarrow> 'a patcher_scheme" where
  "emit off patch_bytes desc p =
     p\<lparr>patches := patches p @ [(off, patch_bytes, desc)],
       data := py_setslice (data p) off (off + int (length patch_bytes)) patch_bytes\<rparr>"

text \<open>
  A rule is a method of the patcher: it returns \<open>True\<close> or \<open>False\<close> and may have emitted
  patches, or it raises. \<open>find_all\<close> calls the rules one after the other and ignores what
  they return; nothing in the sources catches an exception, so the first rule that raises
  ends \<open>find_all\<close>.
\<close>

type_synonym 's rule = "'s \<Rightarrow> error + bool \<times> 's"

fun run_rules :: "'s rule list \<Rightarrow> 's \<Rightarrow> error + 's" where
  "run_rules [] p = Inr p"
| "run_rules (r # rs) p = (case r p of Inl e \<Rightarrow> Inl e | Inr (ok, p') \<Rightarrow> run_rules rs p')"

text \<open>
  The write loop of \<open>apply\<close>:
  \<^verbatim>\<open>
  for off, patch_bytes, _ in patches:
      self.data[off:off + len(patch_bytes)] = patch_bytes
  \<close>
\<close>

definition write_patch :: "byte list \<Rightarrow> patch \<Rightarrow> byte list" where
  "write_patch d pt = (case pt of (off, pb, desc) \<Rightarrow> py_setslice d off (off + int (length pb)) pb)"

definition write_patches :: "patch list \<Rightarrow> byte list \<Rightarrow> byte list" where
  "write_patches ps d = foldl write_patch d ps"

text \<open>
  \<open>apply\<close>, the same in the three patchers but for the rules run: clear \<open>patches\<close>, run
  the rules, write every registered patch, return \<open>len(patches)\<close>.
\<close>

definition find_all_with :: "'a patcher_scheme rule list \<Rightarrow> 'a patcher_scheme \<Rightarrow> error + 'a patcher_scheme" where
  "find_all_with rules p = run_rules rules (p\<lparr>patches := []\<rparr>)"

definition apply_with :: "'a patcher_scheme rule list \<Rightarrow> 'a patcher_scheme \<Rightarrow> error + int \<times> 'a patcher_scheme" where
  "apply_with rules p =
     (case find_all_with rules p of
        Inl e \<Rightarrow> Inl e
      | Inr p1 \<Rightarrow> Inr (int (length (patches p1)),
                       p1\<lparr>data := write_patches (patches p1) (data p1)\<rparr>))"

section \<open>The disassembler and assembler facade\<close>

text \<open>
  Capstone and Keystone are libraries outside the repository, and the thin wrappers
  \<open>_disasm_one\<close> and \<open>_asm\<close> live in the base modules that are not part of the sources.
  They are parameters of the model. An instruction carries the fields the rules read.
  Keystone reports a failure by an exception of its own or by an empty encoding; both are
  the value \<open>None\<close> of \<open>ks_asm\<close>.
\<close>

record operand =
  op_type :: int
  reg :: int
  imm :: int

record insn =
  address :: int
  mnemonic :: string
  op_str :: string
  operands :: "operand list"

record facade =
  disasm_one :: "byte list \<Rightarrow> int \<Rightarrow> insn option"
  ks_asm :: "string \<Rightarrow> int \<Rightarrow> byte list option"
  cs_disasm :: "byte list \<Rightarrow> int \<Rightarrow> insn list"
  chunked_disasm :: "byte list \<Rightarrow> insn list list"
  ARM64_REG_W0 :: int

text \<open>
  The fixed encodings the modules assemble when they are loaded (\<open>NOP = _asm("nop")\<close>
  and so on), as the A64 instruction set defines them.
\<close>

definition NOP :: "byte list" where "NOP = [0x1F, 0x20, 0x03, 0xD5]"
definition MOV_X0_0 :: "byte list" where "MOV_X0_0 = [0x00, 0x00, 0x80, 0xD2]"
definition MOV_X0_1 :: "byte list" where "MOV_X0_1 = [0x20, 0x00, 0x80, 0xD2]"
definition MOV_W0_1 :: "byte list" where "MOV_W0_1 = [0x20, 0x00, 0x80, 0x52]"
definition MOV_X0_X20 :: "byte list" where "MOV_X0_X20 = [0xE0, 0x03, 0x14, 0xAA]"
definition STRB_W0_X20_30 :: "byte list" where "STRB_W0_X20_30 = [0x80, 0xC2, 0x00, 0x39]"
definition PACIBSP :: "byte list" where "PACIBSP = [0x7F, 0x23, 0x03, 0xD5]"
definition RET :: "byte list" where "RET = [0xC0, 0x03, 0x5F, 0xD6]"

text \<open>
  \<^verbatim>\<open>
  def _asm_at(self, asm_line, addr):
      enc, _ = _ks.asm(asm_line, addr=addr)
      if not enc:
          raise RuntimeError(...)
      return bytes(enc)
  \<close>
\<close>

definition asm_at :: "facade \<Rightarrow> string \<Rightarrow> int \<Rightarrow> error + byte list" where
  "asm_at env asm_line addr =
     (case ks_asm env asm_line addr of
        None \<Rightarrow> Inl RuntimeError
      | Some enc \<Rightarrow> if enc = [] then Inl RuntimeError else Inr enc)"

section \<open>The TXM patcher (\<open>txm_jb.py\<close>)\<close>

subsection \<open>Helpers\<close>

text \<open>
  \<open>_find_func_start(off, back=0x1000)\<close>: the nearest \<open>PACIBSP\<close> at or before \<open>off\<close>,
  scanning down to \<open>max(0, off - back)\<close>; \<open>None\<close> when there is none.
\<close>

definition find_func_start :: "patcher \<Rightarrow> int \<Rightarrow> int \<Rightarrow> int option" where
  "find_func_start p off back =
     (let start = max 0 (off - back)
      in find (\<lambda>scan. py_slice (raw p) scan (scan + 4) = PACIBSP)
              (py_range (off AND NOT 3) (start - 1) (- 4)))"

text \<open>
  \<open>_find_refs_to_offset(target_off)\<close>: every adjacent pair \<open>(off, off + 4)\<close> of an
  \<open>adrp\<close> and an \<open>add\<close> on the register the \<open>adrp\<close> wrote whose immediates sum to the
  target.
\<close>

definition adrp_add_pair :: "insn \<Rightarrow> insn \<Rightarrow> int \<Rightarrow> bool" where
  "adrp_add_pair a b target_off =
     (mnemonic a = ''adrp'' \<and> mnemonic b = ''add''
      \<and> length (operands a) \<ge> 2 \<and> length (operands b) \<ge> 3
      \<and> reg (operands a ! 0) = reg (operands b ! 1)
      \<and> imm (operands a ! 1) + imm (operands b ! 2) = target_off)"

definition find_refs_to_offset :: "facade \<Rightarrow> patcher \<Rightarrow> int \<Rightarrow> (int \<times> int) list" where
  "find_refs_to_offset env p target_off =
     map (\<lambda>off. (off, off + 4))
       (filter (\<lambda>off. case (disasm_one env (raw p) off, disasm_one env (raw p) (off + 4)) of
                        (Some a, Some b) \<Rightarrow> adrp_add_pair a b target_off
                      | _ \<Rightarrow> False)
          (py_range 0 (psize p - 8) 4))"

text \<open>
  \<open>_find_string_refs(needle)\<close>: for every occurrence \<open>s_off\<close> of the needle in \<open>raw\<close>,
  the references to \<open>s_off\<close> itself whose \<open>adrp\<close> has not been seen yet.
  \<^verbatim>\<open>
  while True:
      s_off = self.raw.find(needle, off)
      if s_off < 0: break
      off = s_off + 1
      for r in self._find_refs_to_offset(s_off):
          if r[0] not in seen:
              seen.add(r[0]); refs.append((s_off, r[0], r[1]))
  \<close>
\<close>

definition add_refs :: "int \<Rightarrow> (int \<times> int) list \<Rightarrow> int list \<times> (int \<times> int \<times> int) list
    \<Rightarrow> int list \<times> (int \<times> int \<times> int) list" where
  "add_refs s_off rs acc =
     foldl (\<lambda>(seen, refs) r.
              if fst r \<notin> set seen then (seen @ [fst r], refs @ [(s_off, fst r, snd r)])
              else (seen, refs))
       acc rs"

lemma find_at_bounds:
  "0 \<le> find_at sub xs i \<Longrightarrow> 0 \<le> i \<Longrightarrow> i \<le> find_at sub xs i \<and> find_at sub xs i \<le> i + int (length xs)"
proof (induction xs arbitrary: i)
  case Nil
  then show ?case by (simp split: if_splits)
next
  case (Cons x xs)
  show ?case
  proof (cases "startswith (x # xs) sub")
    case True
    then show ?thesis by simp
  next
    case False
    then have eq: "find_at sub (x # xs) i = find_at sub xs (i + 1)" by simp
    from Cons.prems Cons.IH [of "i + 1"] show ?thesis unfolding eq by simp
  qed
qed

lemma py_find_bounds:
  assumes "0 \<le> py_find xs sub start"
  shows "start \<le> py_find xs sub start \<and> py_find xs sub start \<le> int (length xs)"
proof -
  define lo where "lo = (if start < 0 then max 0 (start + int (length xs)) else start)"
  have lo: "0 \<le> lo" "start \<le> lo" by (auto simp: lo_def)
  have le: "lo \<le> int (length xs)" and eq: "py_find xs sub start = find_at sub (drop (nat lo) xs) lo"
    using assms by (auto simp: py_find_def lo_def [symmetric] Let_def split: if_splits)
  have "lo \<le> find_at sub (drop (nat lo) xs) lo
      \<and> find_at sub (drop (nat lo) xs) lo \<le> lo + int (length (drop (nat lo) xs))"
    using assms lo(1) unfolding eq by (rule find_at_bounds)
  then show ?thesis using lo le unfolding eq by simp
qed

function string_refs_loop :: "facade \<Rightarrow> patcher \<Rightarrow> byte list \<Rightarrow> int
    \<Rightarrow> int list \<times> (int \<times> int \<times> int) list \<Rightarrow> (int \<times> int \<times> int) list" where
  "string_refs_loop env p needle off acc =
     (if py_find (raw p) needle off < 0 then snd acc
      else string_refs_loop env p needle (py_find (raw p) needle off + 1)
             (add_refs (py_find (raw p) needle off)
                (find_refs_to_offset env p (py_find (raw p) needle off)) acc))"
  by pat_completeness auto
termination
proof (relation "measure (\<lambda>(env, p, needle, off, acc). nat (int (length (raw p)) + 1 - off))")
  show "wf (measure (\<lambda>(env, p, needle, off, acc). nat (int (length (raw p)) + 1 - off)))"
    by simp
next
  fix env :: facade and p :: patcher and needle :: "byte list" and off :: int
    and acc :: "int list \<times> (int \<times> int \<times> int) list"
  assume "\<not> py_find (raw p) needle off < 0"
  then have "off \<le> py_find (raw p) needle off \<and> py_find (raw p) needle off \<le> int (length (raw p))"
    using py_find_bounds [of "raw p" needle off] by simp
  then show "((env, p, needle, py_find (raw p) needle off + 1,
        add_refs (py_find (raw p) needle off)
          (find_refs_to_offset env p (py_find (raw p) needle off)) acc),
       (env, p, needle, off, acc))
      \<in> measure (\<lambda>(env, p, needle, off, acc). nat (int (length (raw p)) + 1 - off))"
    by simp
qed

declare string_refs_loop.simps [simp del]

definition find_string_refs :: "facade \<Rightarrow> patcher \<Rightarrow> byte list \<Rightarrow> (int \<times> int \<times> int) list" where
  "find_string_refs env p needle = string_refs_loop env p needle 0 ([], [])"

text \<open>An ASCII byte string literal \<open>b"..."\<close>.\<close>

definition bytes_of :: "string \<Rightarrow> byte list" where
  "bytes_of s = map of_char s"

text \<open>
  The call-site predicate that \<open>_find_debugger_gate_func_start\<close> and
  \<open>patch_debugger_entitlement_force_true\<close> share:
  \<open>mov x0, #0; mov x2, #0; bl ...; tbnz w0, #0, ...\<close> with the \<open>bl\<close> at \<open>scan\<close>.
\<close>

definition debugger_site :: "facade \<Rightarrow> patcher \<Rightarrow> int \<Rightarrow> bool" where
  "debugger_site env p scan =
     (case (disasm_one env (raw p) scan, disasm_one env (raw p) (scan + 4),
            if scan \<ge> 4 then disasm_one env (raw p) (scan - 4) else None,
            if scan \<ge> 8 then disasm_one env (raw p) (scan - 8) else None) of
        (Some i, Some n, Some p1, Some p2) \<Rightarrow>
          mnemonic i = ''bl''
          \<and> mnemonic n = ''tbnz'' \<and> startswith (op_str n) ''w0, #0,''
          \<and> mnemonic p1 = ''mov'' \<and> op_str p1 = ''x2, #0''
          \<and> mnemonic p2 = ''mov'' \<and> op_str p2 = ''x0, #0''
      | _ \<Rightarrow> False)"

definition find_debugger_gate_func_start :: "facade \<Rightarrow> patcher \<Rightarrow> int option" where
  "find_debugger_gate_func_start env p =
     (let refs = find_string_refs env p (bytes_of ''com.apple.private.cs.debugger'');
          starts = foldl (\<lambda>starts scan.
                     if debugger_site env p scan
                     then (case find_func_start p scan 0x1000 of
                             Some fs \<Rightarrow> List.insert fs starts
                           | None \<Rightarrow> starts)
                     else starts)
                   []
                   (concat (map (\<lambda>(s_off, adrp_off, add_off).
                              py_range add_off (min (add_off + 0x20) (psize p - 8)) 4) refs))
      in if length starts \<noteq> 1 then None else Some (hd starts))"

text \<open>
  \<open>_find_udf_cave(min_insns, near_off, max_distance=0x80000)\<close>: a run of zero words of
  at least \<open>min_insns\<close> instructions, in the snapshot \<open>raw\<close>. The first run that follows a
  branch is returned at once; otherwise the run nearest to \<open>near_off\<close> that disassembles.
\<close>

function zero_run :: "byte list \<Rightarrow> int \<Rightarrow> int \<Rightarrow> int" where
  "zero_run rw end run =
     (if run < end \<and> py_slice rw run (run + 4) = [0, 0, 0, 0]
      then zero_run rw end (run + 4) else run)"
  by pat_completeness auto
termination
  by (relation "measure (\<lambda>(rw, end, run). nat (end - run))") auto

declare zero_run.simps [simp del]

definition cave_branch_mnemonics :: "string list" where
  "cave_branch_mnemonics =
     [''b'', ''b.eq'', ''b.ne'', ''b.lo'', ''b.hs'', ''cbz'', ''cbnz'', ''tbz'', ''tbnz'']"

function udf_cave_loop :: "facade \<Rightarrow> byte list \<Rightarrow> int \<Rightarrow> int option \<Rightarrow> int
    \<Rightarrow> (int \<times> int) option \<Rightarrow> int \<Rightarrow> int option" where
  "udf_cave_loop env rw need near_off end best off =
     (if off < end then
        (if zero_run rw end off - off \<ge> need
            \<and> off \<ge> 4
            \<and> (case disasm_one env rw (off - 4) of
                  Some prev \<Rightarrow> mnemonic prev \<in> set cave_branch_mnemonics
                | None \<Rightarrow> False)
         then Some off
         else udf_cave_loop env rw need near_off end
                (if zero_run rw end off - off \<ge> need
                 then (case near_off of
                         None \<Rightarrow> best
                       | Some near \<Rightarrow>
                           if disasm_one env rw off \<noteq> None
                           then (case best of
                                   None \<Rightarrow> Some (off, \<bar>off - near\<bar>)
                                 | Some (b, best_dist) \<Rightarrow>
                                     if \<bar>off - near\<bar> < best_dist then Some (off, \<bar>off - near\<bar>)
                                     else best)
                           else best)
                 else best)
                (if zero_run rw end off > off then zero_run rw end off + 4 else off + 4))
      else map_option fst best)"
  by pat_completeness auto
termination
  by (relation "measure (\<lambda>(env, rw, need, near_off, end, best, off). nat (end - off))") auto

declare udf_cave_loop.simps [simp del]

definition find_udf_cave :: "facade \<Rightarrow> patcher \<Rightarrow> int \<Rightarrow> int option \<Rightarrow> int \<Rightarrow> int option" where
  "find_udf_cave env p min_insns near_off max_distance =
     (let need = min_insns * 4;
          start = (case near_off of None \<Rightarrow> 0 | Some near \<Rightarrow> max 0 (near - 0x1000));
          end = (case near_off of None \<Rightarrow> psize p | Some near \<Rightarrow> min (psize p) (near + max_distance))
      in udf_cave_loop env (raw p) need near_off end None start)"

subsection \<open>The six rules\<close>

text \<open>
  \<open>patch_selector24_hashcmp_calls\<close>. The loop emits at every site as it finds it and
  counts; the count is checked after the loop.
  \<^verbatim>\<open>
  for off in range(0, self.size - 8, 4):
      ...
      self.emit(off + 4, MOV_X0_0, f"selector24 hashcmp bypass #{patched + 1}: ...")
      patched += 1
  if patched > 3: return False
  if patched == 0: return False
  return True
  \<close>
\<close>

definition hashcmp_site :: "facade \<Rightarrow> patcher \<Rightarrow> int \<Rightarrow> bool" where
  "hashcmp_site env p off =
     (case (disasm_one env (raw p) off, disasm_one env (raw p) (off + 4),
            disasm_one env (raw p) (off + 8)) of
        (Some i0, Some i1, Some i2) \<Rightarrow>
          mnemonic i0 = ''mov'' \<and> op_str i0 = ''w2, #0x14''
          \<and> mnemonic i1 = ''bl'' \<and> mnemonic i2 = ''cbz'' \<and> startswith (op_str i2) ''w0,''
      | _ \<Rightarrow> False)"

definition hashcmp_step :: "facade \<Rightarrow> int \<times> patcher \<Rightarrow> int \<Rightarrow> int \<times> patcher" where
  "hashcmp_step env acc off =
     (case acc of (patched, p) \<Rightarrow>
        if hashcmp_site env p off
        then (patched + 1,
              emit (off + 4) MOV_X0_0
                (''selector24 hashcmp bypass #'' @ str_int (patched + 1) @ '': bl -> mov x0,#0'') p)
        else (patched, p))"

definition patch_selector24_hashcmp_calls :: "facade \<Rightarrow> patcher rule" where
  "patch_selector24_hashcmp_calls env p =
     (case foldl (hashcmp_step env) (0, p) (py_range 0 (psize p - 8) 4) of
        (patched, p') \<Rightarrow>
          if patched > 3 then Inr (False, p')
          else if patched = 0 then Inr (False, p')
          else Inr (True, p'))"

text \<open>
  \<open>patch_selector24_a1_path\<close>: the sites are collected first, and the patches are
  emitted only when exactly one was found.
\<close>

definition a1_site :: "facade \<Rightarrow> patcher \<Rightarrow> int \<Rightarrow> bool" where
  "a1_site env p scan =
     (case disasm_one env (raw p) scan of
        Some ins \<Rightarrow>
          mnemonic ins = ''mov'' \<and> op_str ins = ''w0, #0xa1''
          \<and> (case (disasm_one env (raw p) (scan - 0xC), disasm_one env (raw p) (scan - 0x4)) of
                (Some i_blo, Some i_cbz) \<Rightarrow>
                  mnemonic i_blo = ''b.lo'' \<and> mnemonic i_cbz = ''cbz''
                  \<and> startswith (op_str i_cbz) ''x9,''
              | _ \<Rightarrow> False)
      | None \<Rightarrow> False)"

definition patch_selector24_a1_path :: "facade \<Rightarrow> patcher rule" where
  "patch_selector24_a1_path env p =
     (let locs = filter (a1_site env p) (py_range 0 (psize p - 4) 4)
      in if length locs \<noteq> 1 then Inr (False, p)
         else let off = hd locs
              in Inr (True, emit (off - 0x4) NOP ''selector24 A1: cbz x9 -> nop''
                              (emit (off - 0xC) NOP ''selector24 A1: b.lo -> nop'' p)))"

text \<open>\<open>patch_get_task_allow_force_true\<close>.\<close>

definition bl_tbnz_site :: "facade \<Rightarrow> patcher \<Rightarrow> int \<Rightarrow> bool" where
  "bl_tbnz_site env p scan =
     (case (disasm_one env (raw p) scan, disasm_one env (raw p) (scan + 4)) of
        (Some i, Some n) \<Rightarrow>
          mnemonic i = ''bl'' \<and> mnemonic n = ''tbnz'' \<and> startswith (op_str n) ''w0, #0,''
      | _ \<Rightarrow> False)"

definition patch_get_task_allow_force_true :: "facade \<Rightarrow> patcher rule" where
  "patch_get_task_allow_force_true env p =
     (let refs = find_string_refs env p (bytes_of ''get-task-allow'')
      in if refs = [] then Inr (False, p)
         else let cands = concat (map (\<lambda>(s_off, adrp_off, add_off).
                            filter (bl_tbnz_site env p)
                              (py_range add_off (min (add_off + 0x20) (psize p - 4)) 4)) refs)
              in if length cands \<noteq> 1 then Inr (False, p)
                 else Inr (True, emit (hd cands) MOV_X0_1 ''get-task-allow: bl -> mov x0,#1'' p))"

text \<open>
  \<open>patch_selector42_29_shellcode\<close>. The two branches are assembled with \<open>_asm_at\<close>,
  which raises when the assembler fails: the first before anything is emitted, the second
  after five patches have been emitted.
\<close>

definition stub_site :: "facade \<Rightarrow> patcher \<Rightarrow> int \<Rightarrow> int \<Rightarrow> bool" where
  "stub_site env p fn off =
     (case (disasm_one env (raw p) (off - 4), disasm_one env (raw p) off,
            disasm_one env (raw p) (off + 4), disasm_one env (raw p) (off + 8),
            disasm_one env (raw p) (off + 12), disasm_one env (raw p) (off + 16),
            disasm_one env (raw p) (off + 20)) of
        (Some pr, Some i0, Some i1, Some i2, Some i3, Some i4, Some i5) \<Rightarrow>
          (mnemonic pr = ''bti'' \<and> op_str pr = ''j'')
          \<and> (mnemonic i0 = ''mov'' \<and> op_str i0 = ''x0, x20'')
          \<and> (mnemonic i1 = ''bl'' \<and> mnemonic i2 = ''mov'' \<and> op_str i2 = ''x1, x21'')
          \<and> (mnemonic i3 = ''mov'' \<and> op_str i3 = ''x2, x22''
               \<and> mnemonic i4 = ''bl'' \<and> mnemonic i5 = ''b'')
          \<and> (operands i4 \<noteq> [] \<and> imm (operands i4 ! 0) = fn)
      | _ \<Rightarrow> False)"

definition patch_selector42_29_shellcode :: "facade \<Rightarrow> patcher rule" where
  "patch_selector42_29_shellcode env p =
     (case find_debugger_gate_func_start env p of
        None \<Rightarrow> Inr (False, p)
      | Some fn \<Rightarrow>
          let stubs = filter (stub_site env p fn) (py_range 4 (psize p - 24) 4)
          in if length stubs \<noteq> 1 then Inr (False, p)
             else let stub_off = hd stubs
                  in case find_udf_cave env p 6 (Some stub_off) 0x80000 of
                       None \<Rightarrow> Inr (False, p)
                     | Some cave \<Rightarrow>
                        (case asm_at env (''b #0x'' @ hex_upper cave) stub_off of
                           Inl e \<Rightarrow> Inl e
                         | Inr b_cave \<Rightarrow>
                            let p1 = emit stub_off b_cave ''selector42|29: branch to shellcode'' p;
                                p2 = emit cave NOP ''selector42|29 shellcode pad: udf -> nop'' p1;
                                p3 = emit (cave + 4) MOV_X0_1 ''selector42|29 shellcode: mov x0,#1'' p2;
                                p4 = emit (cave + 8) STRB_W0_X20_30
                                       ''selector42|29 shellcode: strb w0,[x20,#0x30]'' p3;
                                p5 = emit (cave + 12) MOV_X0_X20 ''selector42|29 shellcode: mov x0,x20'' p4
                            in case asm_at env (''b #0x'' @ hex_upper (stub_off + 4)) (cave + 16) of
                                 Inl e \<Rightarrow> Inl e
                               | Inr b_back \<Rightarrow>
                                  Inr (True, emit (cave + 16) b_back
                                               ''selector42|29 shellcode: branch back'' p5)))"

text \<open>\<open>patch_debugger_entitlement_force_true\<close>.\<close>

definition patch_debugger_entitlement_force_true :: "facade \<Rightarrow> patcher rule" where
  "patch_debugger_entitlement_force_true env p =
     (let refs = find_string_refs env p (bytes_of ''com.apple.private.cs.debugger'')
      in if refs = [] then Inr (False, p)
         else let cands = concat (map (\<lambda>(s_off, adrp_off, add_off).
                            filter (debugger_site env p)
                              (py_range add_off (min (add_off + 0x20) (psize p - 4)) 4)) refs)
              in if length cands \<noteq> 1 then Inr (False, p)
                 else Inr (True, emit (hd cands) MOV_W0_1 ''debugger entitlement: bl -> mov w0,#1'' p))"

text \<open>\<open>patch_developer_mode_bypass\<close>.\<close>

definition devmode_guard :: "facade \<Rightarrow> patcher \<Rightarrow> int \<Rightarrow> bool" where
  "devmode_guard env p back =
     (case disasm_one env (raw p) back of
        Some ins \<Rightarrow>
          mnemonic ins \<in> set [''tbz'', ''tbnz'', ''cbz'', ''cbnz'']
          \<and> startswith (op_str ins) ''w9, #0,''
      | None \<Rightarrow> False)"

definition patch_developer_mode_bypass :: "facade \<Rightarrow> patcher rule" where
  "patch_developer_mode_bypass env p =
     (let refs = find_string_refs env p
                   (bytes_of ''developer mode enabled due to system policy configuration'')
      in if refs = [] then Inr (False, p)
         else let cands = concat (map (\<lambda>(s_off, adrp_off, add_off).
                            filter (devmode_guard env p)
                              (py_range (add_off - 4) (max (add_off - 0x20) 0) (- 4))) refs)
              in if length cands \<noteq> 1 then Inr (False, p)
                 else Inr (True, emit (hd cands) NOP ''developer mode bypass'' p))"

subsection \<open>\<open>find_all\<close> and \<open>apply\<close>\<close>

definition TXMJB_rules :: "facade \<Rightarrow> patcher rule list" where
  "TXMJB_rules env =
     [patch_selector24_hashcmp_calls env,
      patch_selector24_a1_path env,
      patch_get_task_allow_force_true env,
      patch_selector42_29_shellcode env,
      patch_debugger_entitlement_force_true env,
      patch_developer_mode_bypass env]"

definition TXMJB_find_all :: "facade \<Rightarrow> patcher \<Rightarrow> error + patcher" where
  "TXMJB_find_all env p = find_all_with (TXMJB_rules env) p"

definition TXMJB_apply :: "facade \<Rightarrow> patcher \<Rightarrow> error + int \<times> patcher" where
  "TXMJB_apply env p = apply_with (TXMJB_rules env) p"

section \<open>The iBoot patcher (\<open>iboot_jb.py\<close>)\<close>

record ipatcher = patcher +
  mode :: string

text \<open>
  Capstone's operand kinds (\<open>capstone.arm64_const\<close>). The number of a register
  (\<open>ARM64_REG_W0\<close>) changes between Capstone versions and is a field of the facade.
\<close>

definition ARM64_OP_REG :: int where "ARM64_OP_REG = 1"
definition ARM64_OP_IMM :: int where "ARM64_OP_IMM = 2"
definition ARM64_OP_MEM :: int where "ARM64_OP_MEM = 3"

text \<open>
  \<open>_find_refs_to_offset\<close> of the iBoot patcher walks the chunks of \<open>_chunked_disasm()\<close>
  (a method of the base class, a parameter here) and pairs each instruction with the next
  one of its chunk.
\<close>

definition iboot_chunk_refs :: "int \<Rightarrow> insn list \<Rightarrow> (int \<times> int \<times> int) list" where
  "iboot_chunk_refs target_off insns =
     map (\<lambda>i. (address (insns ! i), address (insns ! (i + 1)), reg (operands (insns ! (i + 1)) ! 0)))
       (filter (\<lambda>i. adrp_add_pair (insns ! i) (insns ! (i + 1)) target_off)
          [0..<length insns - 1])"

definition iboot_find_refs_to_offset :: "facade \<Rightarrow> ipatcher \<Rightarrow> int \<Rightarrow> (int \<times> int \<times> int) list" where
  "iboot_find_refs_to_offset env p target_off =
     concat (map (iboot_chunk_refs target_off) (chunked_disasm env (raw p)))"

definition iboot_add_refs :: "(int \<times> int \<times> int) list \<Rightarrow> int list \<times> (int \<times> int \<times> int) list
    \<Rightarrow> int list \<times> (int \<times> int \<times> int) list" where
  "iboot_add_refs rs acc =
     foldl (\<lambda>(seen, refs) r.
              if fst r \<notin> set seen then (seen @ [fst r], refs @ [r]) else (seen, refs))
       acc rs"

function iboot_string_refs_loop :: "facade \<Rightarrow> ipatcher \<Rightarrow> byte list \<Rightarrow> int
    \<Rightarrow> int list \<times> (int \<times> int \<times> int) list \<Rightarrow> (int \<times> int \<times> int) list" where
  "iboot_string_refs_loop env p needle off acc =
     (if py_find (raw p) needle off < 0 then snd acc
      else iboot_string_refs_loop env p needle (py_find (raw p) needle off + 1)
             (iboot_add_refs (iboot_find_refs_to_offset env p (py_find (raw p) needle off)) acc))"
  by pat_completeness auto
termination
proof (relation "measure (\<lambda>(env, p, needle, off, acc). nat (int (length (raw p)) + 1 - off))")
  show "wf (measure (\<lambda>(env, p, needle, off, acc). nat (int (length (raw p)) + 1 - off)))"
    by simp
next
  fix env :: facade and p :: ipatcher and needle :: "byte list" and off :: int
    and acc :: "int list \<times> (int \<times> int \<times> int) list"
  assume "\<not> py_find (raw p) needle off < 0"
  then have "off \<le> py_find (raw p) needle off \<and> py_find (raw p) needle off \<le> int (length (raw p))"
    using py_find_bounds [of "raw p" needle off] by simp
  then show "((env, p, needle, py_find (raw p) needle off + 1,
        iboot_add_refs (iboot_find_refs_to_offset env p (py_find (raw p) needle off)) acc),
       (env, p, needle, off, acc))
      \<in> measure (\<lambda>(env, p, needle, off, acc). nat (int (length (raw p)) + 1 - off))"
    by simp
qed

declare iboot_string_refs_loop.simps [simp del]

definition iboot_find_string_refs :: "facade \<Rightarrow> ipatcher \<Rightarrow> byte list \<Rightarrow> (int \<times> int \<times> int) list" where
  "iboot_find_string_refs env p needle = iboot_string_refs_loop env p needle 0 ([], [])"

text \<open>
  \<open>patch_skip_generate_nonce\<close>: the first \<open>tbz/tbnz w0, #0, target; mov w0, #0; bl\<close>
  after a reference to \<open>"boot-nonce"\<close> becomes \<open>b target\<close>.
\<close>

definition nonce_site :: "facade \<Rightarrow> ipatcher \<Rightarrow> int \<Rightarrow> bool" where
  "nonce_site env p scan =
     (case (disasm_one env (raw p) scan, disasm_one env (raw p) (scan + 4),
            disasm_one env (raw p) (scan + 8)) of
        (Some i0, Some i1, Some i2) \<Rightarrow>
          mnemonic i0 \<in> set [''tbz'', ''tbnz'']
          \<and> length (operands i0) \<ge> 3
          \<and> (op_type (operands i0 ! 0) = ARM64_OP_REG \<and> reg (operands i0 ! 0) = ARM64_REG_W0 env)
          \<and> (op_type (operands i0 ! 1) = ARM64_OP_IMM \<and> imm (operands i0 ! 1) = 0)
          \<and> (mnemonic i1 = ''mov'' \<and> op_str i1 = ''w0, #0'')
          \<and> mnemonic i2 = ''bl''
      | _ \<Rightarrow> False)"

definition patch_skip_generate_nonce :: "facade \<Rightarrow> ipatcher rule" where
  "patch_skip_generate_nonce env p =
     (let refs = iboot_find_string_refs env p (bytes_of ''boot-nonce'')
      in if refs = [] then Inr (False, p)
         else case find (nonce_site env p)
                     (concat (map (\<lambda>(adrp_off, add_off, r).
                                py_range add_off (min (add_off + 0x100) (psize p - 12)) 4) refs)) of
                None \<Rightarrow> Inr (False, p)
              | Some scan \<Rightarrow>
                  (case disasm_one env (raw p) scan of
                     None \<Rightarrow> Inr (False, p)
                   | Some i0 \<Rightarrow>
                       (case asm_at env (''b #0x'' @ hex_upper (imm (operands i0 ! 2))) scan of
                          Inl e \<Rightarrow> Inl e
                        | Inr b \<Rightarrow> Inr (True, emit scan b ''JB: skip generate_nonce'' p))))"

definition IBootJB_rules :: "facade \<Rightarrow> ipatcher \<Rightarrow> ipatcher rule list" where
  "IBootJB_rules env p = (if mode p = ''ibss'' then [patch_skip_generate_nonce env] else [])"

definition IBootJB_apply :: "facade \<Rightarrow> ipatcher \<Rightarrow> error + int \<times> ipatcher" where
  "IBootJB_apply env p = apply_with (IBootJB_rules env p) p"

section \<open>The kernel patcher (\<open>kernel_jb.py\<close>)\<close>

text \<open>
  The kernel patcher adds the symbol table that \<open>_build_symbol_table\<close> fills (a name is
  entered only with \<open>0 <= foff < self.size\<close>) and, from the base class, the executable
  ranges and the kernel text range. A lookup uses an ASCII literal, so 8-bit strings are
  enough for the keys.
\<close>

record kpatcher = patcher +
  symbols :: "string \<rightharpoonup> int"
  code_ranges :: "(int \<times> int) list"
  kern_text :: "int \<times> int"

text \<open>
  The methods of the base class \<open>KernelPatcher\<close> that the modelled rules call are
  parameters: \<open>_disas_at(off, n)\<close>, \<open>find_function_start(off)\<close> and \<open>_is_bl(off)\<close>.
\<close>

record kfacade =
  disas_at :: "byte list \<Rightarrow> int \<Rightarrow> nat \<Rightarrow> insn list"
  find_function_start :: "byte list \<Rightarrow> int \<Rightarrow> int"
  is_bl :: "byte list \<Rightarrow> int \<Rightarrow> int"

text \<open>\<open>_resolve_symbol(name)\<close>: \<open>self.symbols.get(name, -1)\<close>.\<close>

definition resolve_symbol :: "kpatcher \<Rightarrow> string \<Rightarrow> int" where
  "resolve_symbol p name = (case symbols p name of Some foff \<Rightarrow> foff | None \<Rightarrow> - 1)"

text \<open>\<open>_find_func_end(func_start, max_size)\<close>: the next \<open>pacibsp\<close> or the limit.\<close>

definition find_func_end :: "kfacade \<Rightarrow> kpatcher \<Rightarrow> int \<Rightarrow> int \<Rightarrow> int" where
  "find_func_end kenv p func_start max_size =
     (let limit = min (func_start + max_size) (psize p)
      in case find (\<lambda>off. case disas_at kenv (raw p) off 1 of
                            [] \<Rightarrow> False
                          | d # ds \<Rightarrow> mnemonic d = ''pacibsp'')
                   (py_range (func_start + 4) limit 4) of
           Some off \<Rightarrow> off
         | None \<Rightarrow> limit)"

text \<open>
  A \<open>collections.Counter\<close> in insertion order; \<open>most_common(1)\<close> is the first entry
  with the highest count.
\<close>

definition counter_add :: "int \<Rightarrow> (int \<times> nat) list \<Rightarrow> (int \<times> nat) list" where
  "counter_add t cs =
     (if t \<in> fst ` set cs then map (\<lambda>(k, c). if k = t then (k, c + 1) else (k, c)) cs
      else cs @ [(t, 1)])"

fun most_common1 :: "(int \<times> nat) list \<Rightarrow> (int \<times> nat) option" where
  "most_common1 [] = None"
| "most_common1 (x # xs) =
     (case most_common1 xs of
        None \<Rightarrow> Some x
      | Some y \<Rightarrow> if snd y > snd x then Some y else Some x)"

text \<open>
  \<open>patch_proc_security_policy\<close>: the symbol first; otherwise \<open>_proc_info\<close> is found by
  its switch (\<open>sub wN, wM, #1; cmp wN, #0x21\<close>) and the target it calls most is stubbed.
  Either way the stub is eight bytes, \<open>mov x0, #0; ret\<close>, at \<open>foff\<close> and \<open>foff + 4\<close>.
\<close>

definition proc_info_site :: "kfacade \<Rightarrow> kpatcher \<Rightarrow> int \<Rightarrow> bool" where
  "proc_info_site kenv p off =
     (case disas_at kenv (raw p) off 2 of
        i0 # i1 # ds \<Rightarrow>
          mnemonic i0 = ''sub'' \<and> mnemonic i1 = ''cmp''
          \<and> length (operands i0) \<ge> 3
          \<and> (op_type (operands i0 ! 2) = ARM64_OP_IMM \<and> imm (operands i0 ! 2) = 1)
          \<and> length (operands i1) \<ge> 2
          \<and> (op_type (operands i1 ! 1) = ARM64_OP_IMM \<and> imm (operands i1 ! 1) = 0x21)
          \<and> reg (operands i0 ! 0) = reg (operands i1 ! 0)
      | _ \<Rightarrow> False)"

definition stub_proc_security_policy :: "int \<Rightarrow> kpatcher \<Rightarrow> kpatcher" where
  "stub_proc_security_policy foff p =
     emit (foff + 4) RET ''ret [_proc_security_policy]''
       (emit foff MOV_X0_0 ''mov x0,#0 [_proc_security_policy]'' p)"

definition patch_proc_security_policy :: "kfacade \<Rightarrow> kpatcher rule" where
  "patch_proc_security_policy kenv p =
     (let foff = resolve_symbol p ''_proc_security_policy''
      in if foff \<ge> 0 then Inr (True, stub_proc_security_policy foff p)
         else
           let ks = fst (kern_text p); ke = snd (kern_text p);
               proc_info_func =
                 (case find (proc_info_site kenv p) (py_range ks (ke - 8) 4) of
                    Some off \<Rightarrow> find_function_start kenv (raw p) off
                  | None \<Rightarrow> - 1)
           in if proc_info_func < 0 then Inr (False, p)
              else
                let proc_info_end = find_func_end kenv p proc_info_func 0x4000;
                    bl_targets =
                      foldl (\<lambda>cs off.
                               let target = is_bl kenv (raw p) off
                               in if target \<ge> 0 \<and> ks \<le> target \<and> target < ke
                                  then counter_add target cs else cs)
                        [] (py_range proc_info_func proc_info_end 4)
                in case most_common1 bl_targets of
                     None \<Rightarrow> Inr (False, p)
                   | Some (foff', count) \<Rightarrow>
                       if count < 3 then Inr (False, p)
                       else Inr (True, stub_proc_security_policy foff' p))"





text \<open>
  \<open>find_all\<close> runs the twenty-four rules of the catalog in their fixed order, and
  \<open>apply\<close> writes what they registered. Most rules rest on helpers of the base class, so
  the catalog is a parameter: the list of the rules, in the order of \<open>find_all\<close>.
\<close>

definition KernelJB_find_all :: "kpatcher rule list \<Rightarrow> kpatcher \<Rightarrow> error + kpatcher" where
  "KernelJB_find_all catalog p = find_all_with catalog p"

definition KernelJB_apply :: "kpatcher rule list \<Rightarrow> kpatcher \<Rightarrow> error + int \<times> kpatcher" where
  "KernelJB_apply catalog p = apply_with catalog p"

section \<open>The user-space patcher (\<open>cfw.py\<close>): anchors and references\<close>




text \<open>
  \<open>_find_adrp_add_ref(code, base_va, target_va)\<close>: the address of the \<open>adrp\<close> of the
  first \<open>add\<close> that completes the target, or \<open>-1\<close>. The cache holds, for each register,
  the last \<open>adrp\<close> that wrote it.
  \<^verbatim>\<open>
  for off in range(0, len(code) - 4, 4):
      insns = list(_cs.disasm(code[off:off + 4], base_va + off))
      if not insns: continue
      insn = insns[0]; idx = off // 4
      if insn.mnemonic == "adrp" and len(insn.operands) >= 2:
          adrp_cache[insn.operands[0].reg] = (insn.address, insn.operands[1].imm, idx)
      elif insn.mnemonic == "add" and len(insn.operands) >= 3:
          src_reg = insn.operands[1].reg; imm = insn.operands[2].imm
          if src_reg in adrp_cache:
              adrp_va, page, adrp_idx = adrp_cache[src_reg]
              if page == target_page and imm == target_pageoff and idx - adrp_idx <= 8:
                  return adrp_va
  return -1
  \<close>
\<close>

type_synonym adrp_cache = "int \<rightharpoonup> int \<times> int \<times> int"



section \<open>Fixtures for the closed examples\<close>

text \<open>
  A stand-in for Capstone that knows the few A64 encodings the examples use, and two
  small TXM images: one with four \<open>mov w2, #0x14; bl; cbz w0\<close> call sites, one with the
  debugger gate, its stub and a cave of six zero words after a branch.
\<close>

definition hex_lower :: "int \<Rightarrow> string" where
  "hex_lower n = map (\<lambda>c. if c = CHR ''A'' then CHR ''a'' else if c = CHR ''B'' then CHR ''b''
      else if c = CHR ''C'' then CHR ''c'' else if c = CHR ''D'' then CHR ''d''
      else if c = CHR ''E'' then CHR ''e'' else if c = CHR ''F'' then CHR ''f'' else c) (hex_upper n)"

definition op_r :: "int \<Rightarrow> operand" where
  "op_r r = \<lparr>op_type = ARM64_OP_REG, reg = r, imm = 0\<rparr>"

definition op_i :: "int \<Rightarrow> operand" where
  "op_i v = \<lparr>op_type = ARM64_OP_IMM, reg = 0, imm = v\<rparr>"

definition mk_insn :: "int \<Rightarrow> string \<Rightarrow> string \<Rightarrow> operand list \<Rightarrow> insn" where
  "mk_insn a m s ops = \<lparr>address = a, mnemonic = m, op_str = s, operands = ops\<rparr>"

definition sext26 :: "int \<Rightarrow> int" where
  "sext26 v = (if v mod 2 ^ 26 \<ge> 2 ^ 25 then v mod 2 ^ 26 - 2 ^ 26 else v mod 2 ^ 26)"

definition fixture_decode :: "int \<Rightarrow> int \<Rightarrow> insn option" where
  "fixture_decode off v =
     (if v = 0xD503237F then Some (mk_insn off ''pacibsp'' [] [])
      else if v = 0xD65F03C0 then Some (mk_insn off ''ret'' [] [])
      else if v = 0xD503249F then Some (mk_insn off ''bti'' ''j'' [])
      else if v = 0x52800282 then Some (mk_insn off ''mov'' ''w2, #0x14'' [op_r 102, op_i 0x14])
      else if v = 0xD2800000 then Some (mk_insn off ''mov'' ''x0, #0'' [op_r 0, op_i 0])
      else if v = 0xD2800002 then Some (mk_insn off ''mov'' ''x2, #0'' [op_r 2, op_i 0])
      else if v = 0xAA1403E0 then Some (mk_insn off ''mov'' ''x0, x20'' [op_r 0, op_r 20])
      else if v = 0xAA1503E1 then Some (mk_insn off ''mov'' ''x1, x21'' [op_r 1, op_r 21])
      else if v = 0xAA1603E2 then Some (mk_insn off ''mov'' ''x2, x22'' [op_r 2, op_r 22])
      else if v = 0x90000001
        then Some (mk_insn off ''adrp'' (''x1, #0x'' @ hex_lower (off - off mod 0x1000))
                     [op_r 1, op_i (off - off mod 0x1000)])
      else if v = 0x91015021
        then Some (mk_insn off ''add'' ''x1, x1, #0x54'' [op_r 1, op_r 1, op_i 0x54])
      else if v = 0x34000040
        then Some (mk_insn off ''cbz'' (''w0, #0x'' @ hex_lower (off + 8)) [op_r 100, op_i (off + 8)])
      else if v = 0x37000040
        then Some (mk_insn off ''tbnz'' (''w0, #0, #0x'' @ hex_lower (off + 8))
                     [op_r 100, op_i 0, op_i (off + 8)])
      else if v div 2 ^ 26 = 0x25
        then Some (mk_insn off ''bl'' (''#0x'' @ hex_lower (off + 4 * sext26 v))
                     [op_i (off + 4 * sext26 v)])
      else if v div 2 ^ 26 = 0x05
        then Some (mk_insn off ''b'' (''#0x'' @ hex_lower (off + 4 * sext26 v))
                     [op_i (off + 4 * sext26 v)])
      else None)"

definition fixture_disasm_one :: "byte list \<Rightarrow> int \<Rightarrow> insn option" where
  "fixture_disasm_one d off =
     (case py_slice d off (off + 4) of
        [b0, b1, b2, b3] \<Rightarrow> fixture_decode off (le_val [b0, b1, b2, b3])
      | _ \<Rightarrow> None)"

fun fixture_cs :: "byte list \<Rightarrow> int \<Rightarrow> insn list" where
  "fixture_cs (b0 # b1 # b2 # b3 # rest) a =
     (case fixture_decode a (le_val [b0, b1, b2, b3]) of
        None \<Rightarrow> []
      | Some i \<Rightarrow> i # fixture_cs rest (a + 4))"
| "fixture_cs bs a = []"

definition fixture_ks :: "string \<Rightarrow> int \<Rightarrow> byte list option" where
  "fixture_ks line addr =
     (if line = ''b #0x3C'' \<and> addr = 0x24 then Some [0x06, 0x00, 0x00, 0x14]
      else if line = ''b #0x28'' \<and> addr = 0x4C then Some [0xF7, 0xFF, 0xFF, 0x17]
      else None)"

definition fixture_env :: "(string \<Rightarrow> int \<Rightarrow> byte list option) \<Rightarrow> facade" where
  "fixture_env ks = \<lparr>disasm_one = fixture_disasm_one, ks_asm = ks,
     cs_disasm = fixture_cs,
     chunked_disasm = (\<lambda>d. []), ARM64_REG_W0 = 100\<rparr>"

definition image_of :: "byte list \<Rightarrow> patcher" where
  "image_of d = \<lparr>raw = d, data = d, patches = []\<rparr>"

definition hashcmp_image :: patcher where
  "hashcmp_image = image_of
     [0x82, 0x02, 0x80, 0x52,  0x00, 0x00, 0x00, 0x94,  0x40, 0x00, 0x00, 0x34,
      0x82, 0x02, 0x80, 0x52,  0x00, 0x00, 0x00, 0x94,  0x40, 0x00, 0x00, 0x34,
      0x82, 0x02, 0x80, 0x52,  0x00, 0x00, 0x00, 0x94,  0x40, 0x00, 0x00, 0x34,
      0x82, 0x02, 0x80, 0x52,  0x00, 0x00, 0x00, 0x94,  0x40, 0x00, 0x00, 0x34]"

text \<open>
  The gate image, instruction by instruction: \<open>pacibsp\<close> at 0x00 (the gate function),
  \<open>adrp x1\<close> and \<open>add x1, x1, #0x54\<close> at 0x04 and 0x08 (the reference to the string at
  0x54), \<open>mov x0, #0; mov x2, #0; bl; tbnz w0, #0\<close> at 0x0C to 0x18, \<open>ret\<close>, then the stub
  \<open>bti j; mov x0, x20; bl; mov x1, x21; mov x2, x22; bl 0x0; b\<close> at 0x20 to 0x38, six zero
  words at 0x3C and the string \<open>com.apple.private.cs.debugger\<close> at 0x54.
\<close>

definition gate_image :: patcher where
  "gate_image = image_of
     [0x7F, 0x23, 0x03, 0xD5,  0x01, 0x00, 0x00, 0x90,  0x21, 0x50, 0x01, 0x91,
      0x00, 0x00, 0x80, 0xD2,  0x02, 0x00, 0x80, 0xD2,  0xFB, 0xFF, 0xFF, 0x97,
      0x40, 0x00, 0x00, 0x37,  0xC0, 0x03, 0x5F, 0xD6,  0x9F, 0x24, 0x03, 0xD5,
      0xE0, 0x03, 0x14, 0xAA,  0xF6, 0xFF, 0xFF, 0x97,  0xE1, 0x03, 0x15, 0xAA,
      0xE2, 0x03, 0x16, 0xAA,  0xF3, 0xFF, 0xFF, 0x97,  0xF9, 0xFF, 0xFF, 0x17,
      0, 0, 0, 0,  0, 0, 0, 0,  0, 0, 0, 0,  0, 0, 0, 0,  0, 0, 0, 0,  0, 0, 0, 0,
      0x63, 0x6F, 0x6D, 0x2E, 0x61, 0x70, 0x70, 0x6C, 0x65, 0x2E, 0x70, 0x72, 0x69, 0x76,
      0x61, 0x74, 0x65, 0x2E, 0x63, 0x73, 0x2E, 0x64, 0x65, 0x62, 0x75, 0x67, 0x67, 0x65,
      0x72, 0, 0, 0]"

definition fixture_kenv :: kfacade where
  "fixture_kenv = \<lparr>disas_at = (\<lambda>d off n. []), find_function_start = (\<lambda>d off. - 1),
     is_bl = (\<lambda>d off. - 1)\<rparr>"

definition kimage :: "int \<Rightarrow> kpatcher" where
  "kimage foff = \<lparr>raw = replicate 64 0x55, data = replicate 64 0x55, patches = [],
     symbols = [''_proc_security_policy'' \<mapsto> foff], code_ranges = [], kern_text = (0, 64)\<rparr>"

section \<open>What a run of rules does to the patcher\<close>

text \<open>
  A patch lies inside a buffer of \<open>n\<close> bytes when \<open>0 <= off\<close> and
  \<open>off + len(bytes) <= n\<close>. A rule is \<open>emit_only\<close> when the state it returns is the
  state it was given after a sequence of \<open>emit\<close> calls.
\<close>

definition in_bounds :: "nat \<Rightarrow> patch \<Rightarrow> bool" where
  "in_bounds n pt = (case pt of (off, pb, desc) \<Rightarrow> 0 \<le> off \<and> off + int (length pb) \<le> int n)"

definition emit_patch :: "'a patcher_scheme \<Rightarrow> patch \<Rightarrow> 'a patcher_scheme" where
  "emit_patch p pt = (case pt of (off, pb, desc) \<Rightarrow> emit off pb desc p)"

definition emits :: "patch list \<Rightarrow> 'a patcher_scheme \<Rightarrow> 'a patcher_scheme" where
  "emits es p = foldl emit_patch p es"

definition emit_only :: "'a patcher_scheme rule \<Rightarrow> bool" where
  "emit_only r = (\<forall>p ok p'. r p = Inr (ok, p') \<longrightarrow> (\<exists>es. p' = emits es p))"

lemma py_setslice_in_bounds:
  assumes "0 \<le> off" "off + int (length ys) \<le> int (length xs)"
  shows "py_setslice xs off (off + int (length ys)) ys
         = take (nat off) xs @ ys @ drop (nat off + length ys) xs"
proof -
  have a: "py_norm (length xs) off = nat off"
    using assms by (simp add: py_norm_def)
  have b: "py_norm (length xs) (off + int (length ys)) = nat off + length ys"
    using assms by (simp add: py_norm_def nat_add_distrib)
  show ?thesis by (simp add: py_setslice_def a b Let_def)
qed

lemma length_py_setslice_in_bounds:
  assumes "0 \<le> off" "off + int (length ys) \<le> int (length xs)"
  shows "length (py_setslice xs off (off + int (length ys)) ys) = length xs"
  using assms by (simp add: py_setslice_in_bounds)

lemma write_patch_in_bounds:
  "in_bounds (length d) (off, pb, desc) \<Longrightarrow>
     write_patch d (off, pb, desc) = take (nat off) d @ pb @ drop (nat off + length pb) d"
  by (simp add: in_bounds_def write_patch_def py_setslice_in_bounds)

lemma length_write_patch: "in_bounds (length d) pt \<Longrightarrow> length (write_patch d pt) = length d"
  by (cases pt) (simp add: in_bounds_def write_patch_def length_py_setslice_in_bounds)

lemma length_write_patches:
  "\<forall>pt\<in>set ps. in_bounds (length d) pt \<Longrightarrow> length (write_patches ps d) = length d"
proof (induction ps arbitrary: d)
  case Nil
  show ?case by (simp add: write_patches_def)
next
  case (Cons pt ps)
  have l: "length (write_patch d pt) = length d"
    using Cons.prems by (simp add: length_write_patch)
  have "length (write_patches ps (write_patch d pt)) = length (write_patch d pt)"
    using Cons.prems by (intro Cons.IH) (simp add: l)
  then show ?case by (simp add: write_patches_def l)
qed

lemma data_emit_patch: "data (emit_patch p pt) = write_patch (data p) pt"
  by (cases pt) (simp add: emit_patch_def emit_def write_patch_def)

lemma patches_emit_patch: "patches (emit_patch p pt) = patches p @ [pt]"
  by (cases pt) (simp add: emit_patch_def emit_def)

lemma raw_emit_patch: "raw (emit_patch p pt) = raw p"
  by (cases pt) (simp add: emit_patch_def emit_def)

lemma emits_Nil: "emits [] p = p"
  by (simp add: emits_def)

lemma emits_append: "emits (es @ fs) p = emits fs (emits es p)"
  by (simp add: emits_def)

lemma emits_single: "emits [(off, pb, desc)] p = emit off pb desc p"
  by (simp add: emits_def emit_patch_def)

lemma patches_emits: "patches (emits es p) = patches p @ es"
  by (induction es arbitrary: p) (simp_all add: emits_def patches_emit_patch)

lemma raw_emits: "raw (emits es p) = raw p"
  by (induction es arbitrary: p) (simp_all add: emits_def raw_emit_patch)

lemma data_emits: "data (emits es p) = write_patches es (data p)"
  by (induction es arbitrary: p) (simp_all add: emits_def write_patches_def data_emit_patch)

lemma run_rules_emits:
  assumes "\<forall>r\<in>set rules. emit_only r" "run_rules rules p = Inr p'"
  shows "\<exists>es. p' = emits es p"
  using assms
proof (induction rules arbitrary: p)
  case Nil
  then have "p' = emits [] p" by (simp add: emits_Nil)
  then show ?case by blast
next
  case (Cons r rs)
  from Cons.prems(2) obtain ok q where rq: "r p = Inr (ok, q)" and rest: "run_rules rs q = Inr p'"
    by (auto split: sum.splits)
  have "emit_only r" using Cons.prems(1) by simp
  then have "\<exists>es. q = emits es p" using rq unfolding emit_only_def by blast
  then obtain es where q: "q = emits es p" by blast
  from Cons.IH [OF _ rest] Cons.prems(1) obtain fs where "p' = emits fs q" by auto
  then have "p' = emits (es @ fs) p" by (simp add: q emits_append)
  then show ?case by blast
qed

lemma apply_with_length:
  assumes eo: "\<forall>r\<in>set rules. emit_only r"
    and ap: "apply_with rules p = Inr (n, p')"
    and ib: "\<forall>pt\<in>set (patches p'). in_bounds (length (data p)) pt"
  shows "length (data p') = length (data p) \<and> n = int (length (patches p'))"
proof -
  from ap obtain p1 where fa: "run_rules rules (p\<lparr>patches := []\<rparr>) = Inr p1"
    and n: "n = int (length (patches p1))"
    and p': "p' = p1\<lparr>data := write_patches (patches p1) (data p1)\<rparr>"
    by (auto simp: apply_with_def find_all_with_def split: sum.splits)
  from run_rules_emits [OF eo fa] obtain es where p1: "p1 = emits es (p\<lparr>patches := []\<rparr>)"
    by blast
  have ps: "patches p1 = es" by (simp add: p1 patches_emits)
  have d1: "data p1 = write_patches es (data p)" by (simp add: p1 data_emits)
  have ib': "\<forall>pt\<in>set es. in_bounds (length (data p)) pt" using ib by (simp add: p' ps)
  have l1: "length (data p1) = length (data p)"
    unfolding d1 using ib' by (rule length_write_patches)
  have "length (write_patches es (data p1)) = length (data p1)"
    using ib' by (intro length_write_patches) (simp add: l1)
  then show ?thesis by (simp add: p' ps n l1)
qed

definition emitted :: "'a patcher_scheme \<Rightarrow> 'a patcher_scheme \<Rightarrow> bool" where
  "emitted p q = (\<exists>es. q = emits es p)"

lemma emitted_refl: "emitted p p"
  unfolding emitted_def using emits_Nil [of p] by metis

lemma emitted_emit: "emitted p q \<Longrightarrow> emitted p (emit off pb desc q)"
proof -
  assume "emitted p q"
  then obtain es where "q = emits es p" unfolding emitted_def by blast
  then have "emit off pb desc q = emits (es @ [(off, pb, desc)]) p"
    by (simp add: emits_append emits_single)
  then show ?thesis unfolding emitted_def by blast
qed

lemma emit_onlyI: "(\<And>p ok p'. r p = Inr (ok, p') \<Longrightarrow> emitted p p') \<Longrightarrow> emit_only r"
  unfolding emit_only_def emitted_def by blast







subsection \<open>The rules of the three patchers\<close>

lemma hashcmp_fold_emitted:
  "emitted p q \<Longrightarrow> emitted p (snd (foldl (hashcmp_step env) (n, q) offs))"
proof (induction offs arbitrary: n q)
  case Nil
  then show ?case by simp
next
  case (Cons off offs)
  show ?case
  proof (cases "hashcmp_site env q off")
    case True
    then show ?thesis
      using Cons.IH [OF emitted_emit [OF Cons.prems]] by (simp add: hashcmp_step_def)
  next
    case False
    then show ?thesis using Cons.IH [OF Cons.prems] by (simp add: hashcmp_step_def)
  qed
qed

lemma hashcmp_emit_only: "emit_only (patch_selector24_hashcmp_calls env)"
proof (rule emit_onlyI)
  fix p ok p'
  assume a: "patch_selector24_hashcmp_calls env p = Inr (ok, p')"
  obtain n q where f: "foldl (hashcmp_step env) (0, p) (py_range 0 (psize p - 8) 4) = (n, q)"
    by (cases "foldl (hashcmp_step env) (0, p) (py_range 0 (psize p - 8) 4)")
  have "p' = q" using a by (simp add: patch_selector24_hashcmp_calls_def f split: if_splits)
  moreover have "emitted p q"
    using hashcmp_fold_emitted [OF emitted_refl, of p env 0 "py_range 0 (psize p - 8) 4"]
    by (simp add: f)
  ultimately show "emitted p p'" by simp
qed


lemma a1_emit_only: "emit_only (patch_selector24_a1_path env)"
  by (rule emit_onlyI)
    (auto simp: patch_selector24_a1_path_def Let_def split: if_splits
          intro!: emitted_emit emitted_refl)


lemma gta_emit_only: "emit_only (patch_get_task_allow_force_true env)"
  by (rule emit_onlyI)
    (auto simp: patch_get_task_allow_force_true_def Let_def split: if_splits
          intro!: emitted_emit emitted_refl)


lemma dbg_emit_only: "emit_only (patch_debugger_entitlement_force_true env)"
  by (rule emit_onlyI)
    (auto simp: patch_debugger_entitlement_force_true_def Let_def split: if_splits
          intro!: emitted_emit emitted_refl)


lemma dev_emit_only: "emit_only (patch_developer_mode_bypass env)"
  by (rule emit_onlyI)
    (auto simp: patch_developer_mode_bypass_def Let_def split: if_splits
          intro!: emitted_emit emitted_refl)


lemma sel42_emit_only: "emit_only (patch_selector42_29_shellcode env)"
  by (rule emit_onlyI)
    (auto simp: patch_selector42_29_shellcode_def Let_def
          split: if_splits option.splits sum.splits
          intro!: emitted_emit emitted_refl)




lemma TXMJB_rules_emit_only: "\<forall>r\<in>set (TXMJB_rules env). emit_only r"
  by (simp add: TXMJB_rules_def hashcmp_emit_only a1_emit_only gta_emit_only
        sel42_emit_only dbg_emit_only dev_emit_only)



lemma nonce_emit_only: "emit_only (patch_skip_generate_nonce env)"
  by (rule emit_onlyI)
    (auto simp: patch_skip_generate_nonce_def Let_def
          split: if_splits option.splits sum.splits
          intro!: emitted_emit emitted_refl)

lemma IBootJB_rules_emit_only: "\<forall>r\<in>set (IBootJB_rules env p). emit_only r"
  by (simp add: IBootJB_rules_def nonce_emit_only)

lemma stub_emitted: "emitted p (stub_proc_security_policy foff p)"
  unfolding stub_proc_security_policy_def by (intro emitted_emit emitted_refl)

lemma psp_emit_only: "emit_only (patch_proc_security_policy kenv)"
  by (rule emit_onlyI)
    (auto simp: patch_proc_security_policy_def Let_def
          split: if_splits option.splits
          intro!: stub_emitted emitted_refl)


section \<open>Claims about \<open>apply\<close> and the rules\<close>

subsection \<open>The examples, evaluated\<close>

text \<open>
  \<open>gate_patched\<close> is the gate image after \<open>apply\<close> with an assembler that encodes the
  two branches: the stub branches to the cave, the cave holds the shellcode, and the
  debugger call site is \<open>mov w0, #1\<close>.
\<close>

definition gate_patched :: patcher where
  "gate_patched = \<lparr>raw = raw gate_image,
     data =
       [0x7F, 0x23, 0x03, 0xD5,  0x01, 0x00, 0x00, 0x90,  0x21, 0x50, 0x01, 0x91,
        0x00, 0x00, 0x80, 0xD2,  0x02, 0x00, 0x80, 0xD2,  0x20, 0x00, 0x80, 0x52,
        0x40, 0x00, 0x00, 0x37,  0xC0, 0x03, 0x5F, 0xD6,  0x9F, 0x24, 0x03, 0xD5,
        0x06, 0x00, 0x00, 0x14,  0xF6, 0xFF, 0xFF, 0x97,  0xE1, 0x03, 0x15, 0xAA,
        0xE2, 0x03, 0x16, 0xAA,  0xF3, 0xFF, 0xFF, 0x97,  0xF9, 0xFF, 0xFF, 0x17,
        0x1F, 0x20, 0x03, 0xD5,  0x20, 0x00, 0x80, 0xD2,  0x80, 0xC2, 0x00, 0x39,
        0xE0, 0x03, 0x14, 0xAA,  0xF7, 0xFF, 0xFF, 0x17,  0, 0, 0, 0,
        0x63, 0x6F, 0x6D, 0x2E, 0x61, 0x70, 0x70, 0x6C, 0x65, 0x2E, 0x70, 0x72, 0x69, 0x76,
        0x61, 0x74, 0x65, 0x2E, 0x63, 0x73, 0x2E, 0x64, 0x65, 0x62, 0x75, 0x67, 0x67, 0x65,
        0x72, 0, 0, 0],
     patches =
       [(0x24, [0x06, 0x00, 0x00, 0x14], ''selector42|29: branch to shellcode''),
        (0x3C, NOP, ''selector42|29 shellcode pad: udf -> nop''),
        (0x40, MOV_X0_1, ''selector42|29 shellcode: mov x0,#1''),
        (0x44, STRB_W0_X20_30, ''selector42|29 shellcode: strb w0,[x20,#0x30]''),
        (0x48, MOV_X0_X20, ''selector42|29 shellcode: mov x0,x20''),
        (0x4C, [0xF7, 0xFF, 0xFF, 0x17], ''selector42|29 shellcode: branch back''),
        (0x14, MOV_W0_1, ''debugger entitlement: bl -> mov w0,#1'')]\<rparr>"

lemma gate_apply_ok: "TXMJB_apply (fixture_env fixture_ks) gate_image = Inr (7, gate_patched)"
  by code_simp




lemma hashcmp_rule_eval:
  "map_sum id (\<lambda>(ok, q). (ok, map fst (patches q), data q = data hashcmp_image))
     (patch_selector24_hashcmp_calls (fixture_env fixture_ks) hashcmp_image)
     = Inr (False, [4, 16, 28, 40], False)"
  by code_simp

lemma hashcmp_apply_eval:
  "map_sum id (\<lambda>(n, q). (n, py_slice (data q) 4 8, py_slice (data q) 40 44))
       (TXMJB_apply (fixture_env fixture_ks) hashcmp_image) = Inr (4, MOV_X0_0, MOV_X0_0)"
  by code_simp

text \<open>
  Claim C1, as amended. \<open>apply\<close> of the TXM, iBoot and kernel patchers leaves
  \<open>len(data)\<close> unchanged and returns the number of registered patches whenever every
  registered patch lies inside the buffer (\<open>0 <= off\<close> and \<open>off + len(bytes) <= len(data)\<close>);
  such a patch overwrites exactly the bytes at \<open>[off, off + len(bytes))\<close> and nothing else.
  For the kernel the rules of the catalog are taken to change the patcher through
  \<open>emit\<close> only. No patcher checks the bound.
\<close>

theorem apply_length_preserving_in_bounds:
  "(TXMJB_apply env p = Inr (n, p') \<and> list_all (in_bounds (length (data p))) (patches p')
      \<longrightarrow> length (data p') = length (data p) \<and> n = int (length (patches p')))
   \<and> (IBootJB_apply env ip = Inr (n, ip') \<and> list_all (in_bounds (length (data ip))) (patches ip')
      \<longrightarrow> length (data ip') = length (data ip) \<and> n = int (length (patches ip')))
   \<and> ((\<forall>r\<in>set catalog. emit_only r) \<and> KernelJB_apply catalog kp = Inr (n, kp')
        \<and> list_all (in_bounds (length (data kp))) (patches kp')
      \<longrightarrow> length (data kp') = length (data kp) \<and> n = int (length (patches kp')))
   \<and> (in_bounds (length d) (off, pb, desc)
      \<longrightarrow> write_patch d (off, pb, desc) = take (nat off) d @ pb @ drop (nat off + length pb) d)"
proof (intro conjI impI)
  assume a: "TXMJB_apply env p = Inr (n, p') \<and> list_all (in_bounds (length (data p))) (patches p')"
  then have "length (data p') = length (data p) \<and> n = int (length (patches p'))"
    using apply_with_length [OF TXMJB_rules_emit_only [of env], of p n p']
    by (simp add: TXMJB_apply_def list_all_iff)
  then show "length (data p') = length (data p)" "n = int (length (patches p'))" by simp_all
next
  assume a: "IBootJB_apply env ip = Inr (n, ip') \<and> list_all (in_bounds (length (data ip))) (patches ip')"
  then have "length (data ip') = length (data ip) \<and> n = int (length (patches ip'))"
    using apply_with_length [OF IBootJB_rules_emit_only [of env ip], of ip n ip']
    by (simp add: IBootJB_apply_def list_all_iff)
  then show "length (data ip') = length (data ip)" "n = int (length (patches ip'))" by simp_all
next
  assume a: "(\<forall>r\<in>set catalog. emit_only r) \<and> KernelJB_apply catalog kp = Inr (n, kp')
        \<and> list_all (in_bounds (length (data kp))) (patches kp')"
  then have "length (data kp') = length (data kp) \<and> n = int (length (patches kp'))"
    using apply_with_length [of catalog kp n kp']
    by (simp add: KernelJB_apply_def list_all_iff)
  then show "length (data kp') = length (data kp)" "n = int (length (patches kp'))" by simp_all
next
  assume "in_bounds (length d) (off, pb, desc)"
  then show "write_patch d (off, pb, desc) = take (nat off) d @ pb @ drop (nat off + length pb) d"
    by (rule write_patch_in_bounds)
qed

theorem apply_length_preserving_in_bounds_witness:
  "TXMJB_apply (fixture_env fixture_ks) gate_image = Inr (7, gate_patched)
   \<and> list_all (in_bounds 116) (patches gate_patched)
   \<and> length (data gate_patched) = 116
   \<and> KernelJB_apply [patch_proc_security_policy fixture_kenv] (kimage 56)
     = Inr (2, snd (projr (KernelJB_apply [patch_proc_security_policy fixture_kenv] (kimage 56))))
   \<and> length (data (snd (projr (KernelJB_apply [patch_proc_security_policy fixture_kenv] (kimage 56))))) = 64
   \<and> write_patch [1, 2, 3, 4, 5, 6] (1, [9, 9], ''x'') = [1, 9, 9, 4, 5, 6]"
proof -
  let ?E = "fixture_env fixture_ks"
  let ?C = "[patch_proc_security_policy fixture_kenv]"
  let ?k = "snd (projr (KernelJB_apply ?C (kimage 56)))"
  have l: "length (data gate_image) = 116" by code_simp
  have b: "list_all (in_bounds 116) (patches gate_patched)" by code_simp
  have lk: "length (data (kimage 56)) = 64" by code_simp
  have "\<not> isl (KernelJB_apply ?C (kimage 56))"
    and "fst (projr (KernelJB_apply ?C (kimage 56))) = 2" by code_simp+
  then have ak: "KernelJB_apply ?C (kimage 56) = Inr (2, ?k)"
    by (metis sum.collapse(2) prod.collapse)
  have bk: "list_all (in_bounds 64) (patches ?k)" by code_simp
  have eo: "\<forall>r\<in>set ?C. emit_only r" by (simp add: psp_emit_only)
  have w: "in_bounds (length [1, 2, 3, 4, 5, 6 :: byte]) (1, [9, 9], ''x'')"
    by (simp add: in_bounds_def)
  note t = apply_length_preserving_in_bounds [where env = ?E and p = gate_image and n = 7
      and p' = gate_patched and d = "[1, 2, 3, 4, 5, 6]" and off = 1 and pb = "[9, 9]"
      and desc = "''x''"]
  have "length (data gate_patched) = 116" using t gate_apply_ok b l by simp
  moreover have "length (data ?k) = 64"
    using apply_length_preserving_in_bounds [where n = 2 and catalog = ?C
        and kp = "kimage 56" and kp' = ?k] eo ak bk lk
    by simp
  moreover have "write_patch [1, 2, 3, 4, 5, 6] (1, [9, 9], ''x'') = [1, 9, 9, 4, 5, 6 :: byte]"
    using t w by simp
  ultimately show ?thesis using gate_apply_ok b ak by simp
qed

text \<open>
  Claim C1 as stated fails. \<open>_parse_nlist\<close> enters a symbol whenever
  \<open>0 <= foff < size\<close>, and the symbol path of \<open>patch_proc_security_policy\<close> emits four
  bytes at \<open>foff\<close> and four at \<open>foff + 4\<close>. With the symbol four bytes before the end of a
  64-byte image the second slice assignment is \<open>data[64:68] = RET\<close>, which appends:
  the buffer has 68 bytes after \<open>apply\<close>.
\<close>

theorem apply_length_not_preserved:
  "map_sum id (\<lambda>(n, q). (n, length (data q)))
     (KernelJB_apply [patch_proc_security_policy fixture_kenv] (kimage 60)) = Inr (2, 68)
   \<and> length (data (kimage 60)) = 64"
  by code_simp

text \<open>
  Claim C2 fails on \<open>patch_selector24_hashcmp_calls\<close>. On an image with four call sites
  the rule returns \<open>False\<close> ("sites too many"), and yet it has registered and written
  the four patches: \<open>apply\<close> counts them and the \<open>bl\<close> at offset 4 has become
  \<open>mov x0, #0\<close>. The sibling \<open>patch_selector24_a1_path\<close> collects its sites first and
  emits only after the count was checked.
\<close>

theorem hashcmp_rejects_after_registering:
  "map_sum id (\<lambda>(ok, q). (ok, map fst (patches q), data q = data hashcmp_image))
     (patch_selector24_hashcmp_calls (fixture_env fixture_ks) hashcmp_image)
     = Inr (False, [4, 16, 28, 40], False)
   \<and> map_sum id (\<lambda>(n, q). (n, py_slice (data q) 4 8, py_slice (data q) 40 44))
       (TXMJB_apply (fixture_env fixture_ks) hashcmp_image) = Inr (4, MOV_X0_0, MOV_X0_0)
   \<and> py_slice (data hashcmp_image) 4 8 = [0x00, 0x00, 0x00, 0x94]"
proof -
  have "py_slice (data hashcmp_image) 4 8 = [0x00, 0x00, 0x00, 0x94]" by code_simp
  then show ?thesis using hashcmp_rule_eval hashcmp_apply_eval by simp
qed





section \<open>The code-cave allocator\<close>

























section \<open>String anchors\<close>





section \<open>Cross-references\<close>

text \<open>The instruction the scan reads at an offset, if any.\<close>

definition insn_at :: "facade \<Rightarrow> byte list \<Rightarrow> int \<Rightarrow> int \<Rightarrow> insn option" where
  "insn_at env code base_va off =
     (case cs_disasm env (py_slice code off (off + 4)) (base_va + off) of
        [] \<Rightarrow> None | insn # rest \<Rightarrow> Some insn)"

definition is_adrp :: "insn \<Rightarrow> bool" where
  "is_adrp a = (mnemonic a = ''adrp'' \<and> length (operands a) \<ge> 2)"

definition is_add :: "insn \<Rightarrow> bool" where
  "is_add b = (mnemonic b = ''add'' \<and> length (operands b) \<ge> 3)"


text \<open>How one scanned offset changes the cache, and the match it may give.\<close>

definition cache_step :: "facade \<Rightarrow> byte list \<Rightarrow> int \<Rightarrow> adrp_cache \<Rightarrow> int \<Rightarrow> adrp_cache" where
  "cache_step env code base_va c off =
     (case insn_at env code base_va off of
        Some a \<Rightarrow> if is_adrp a
                  then c(reg (operands a ! 0) \<mapsto> (address a, imm (operands a ! 1), off div 4))
                  else c
      | None \<Rightarrow> c)"

definition add_match :: "facade \<Rightarrow> byte list \<Rightarrow> int \<Rightarrow> int \<Rightarrow> int \<Rightarrow> adrp_cache \<Rightarrow> int \<Rightarrow> int option" where
  "add_match env code base_va tp tpo c off =
     (case insn_at env code base_va off of
        Some b \<Rightarrow>
          if \<not> is_adrp b \<and> is_add b
          then (case c (reg (operands b ! 1)) of
                  Some (adrp_va, page, adrp_idx) \<Rightarrow>
                    if page = tp \<and> imm (operands b ! 2) = tpo \<and> off div 4 - adrp_idx \<le> 8
                    then Some adrp_va else None
                | None \<Rightarrow> None)
          else None
      | None \<Rightarrow> None)"



lemma add_match_no_step:
  "add_match env code base_va tp tpo c off = Some va \<Longrightarrow> cache_step env code base_va c off = c"
  by (auto simp: add_match_def cache_step_def split: option.splits if_splits)













end
